theory Spec2Isabelle
  imports Complex_Main "HOL-Library.Multiset" "HOL-Library.Product_Lexorder"
begin

section \<open>Recency weight (main.py, get\_year\_multiplier)\<close>

text \<open>
  The argument of \<open>get_year_multiplier\<close> is a document's \<open>ref_year_int\<close>: a Python
  \<open>int\<close> or \<open>None\<close>. \<open>None\<close> and \<open>0\<close> are both falsy, so the first test returns
  \<open>0.0\<close> for them. The results are the float literals of the source, read as rationals.
\<close>

definition get_year_multiplier :: "int option \<Rightarrow> rat" where
  "get_year_multiplier year =
     (case year of
        None \<Rightarrow> 0
      | Some y \<Rightarrow>
          if y = 0 then 0
          else if y \<ge> 2023 then 1
          else if y = 2022 then 8 / 10
          else if y = 2021 then 6 / 10
          else if y = 2020 then 4 / 10
          else if y = 2019 then 2 / 10
          else 0)"

section \<open>Classified documents\<close>

text \<open>
  A classified document is a Python dict. The record has one field for each key the
  selection and the output read; a key that may be absent (or hold \<open>None\<close>) is an
  option. Scores are Python floats, products of two of the literals of the source (or of
  a count divided by 4 and a literal); they are read as rationals. The exact
  values are multiples of 1/20 and rounding moves a float by far less, so two scores that
  differ as rationals are ordered the same way as floats. Two scores that are equal as
  rationals can differ in the last bit as floats when they come from different products
  (0.75 * 0.4 and 0.5 * 0.6); equal products are equal floats.
\<close>

record doc =
  url :: string
  error :: "string option"
  content_type :: "string option"
  ref_year_int :: "int option"
  llm_ref_year_str :: "string option"
  is_direct_file_link :: "string option"
  data_points_present :: "(string \<times> string) list"
  calculated_score :: rat
  selection_category :: string
  final_type_for_csv :: "string option"

text \<open>\<open>doc.get("error")\<close> as a condition: the key is present and its string is not empty.\<close>

definition has_error :: "doc \<Rightarrow> bool" where
  "has_error d = (case error d of None \<Rightarrow> False | Some e \<Rightarrow> e \<noteq> [])"

definition is_direct_link :: "doc \<Rightarrow> bool" where
  "is_direct_link d = (is_direct_file_link d = Some ''YES'')"

text \<open>\<open>sum(1 for val in data_points.values() if val == "YES")\<close>\<close>

definition num_present :: "doc \<Rightarrow> nat" where
  "num_present d = length (filter (\<lambda>kv. snd kv = ''YES'') (data_points_present d))"

definition par_sc :: "nat \<Rightarrow> rat" where
  "par_sc n = (if n \<ge> 2 then rat_of_nat n / 4 else 0)"

section \<open>Scoring and categorisation (process\_company\_urls, lines 198-249)\<close>

text \<open>
  The loop body: it writes \<open>calculated_score\<close> and \<open>selection_category\<close> into the
  document in place. The branches are tried in the order of the source.
\<close>

definition score_doc :: "doc \<Rightarrow> doc" where
  "score_doc d =
     (if has_error d then
        d\<lparr>calculated_score := 0, selection_category := ''ERROR''\<rparr>
      else if content_type d = Some ''ANNUAL_FINANCIAL_REPORT_DOCUMENT'' \<and> is_direct_link d
              \<and> ref_year_int d \<noteq> None then
        d\<lparr>calculated_score := 1 * get_year_multiplier (ref_year_int d),
          selection_category := ''POTENTIAL_FIN_REP''\<rparr>
      else if content_type d = Some ''FINANCIAL_DATA_PAGE'' \<and> ref_year_int d \<noteq> None then
        d\<lparr>calculated_score := par_sc (num_present d) * get_year_multiplier (ref_year_int d),
          selection_category := ''POTENTIAL_OTHER_FINANCIAL_DATA_PAGE''\<rparr>
      else if content_type d = Some ''ANNUAL_FINANCIAL_REPORT_DOCUMENT'' \<and> \<not> is_direct_link d
              \<and> ref_year_int d \<noteq> None then
        d\<lparr>calculated_score := (5 / 10) * get_year_multiplier (ref_year_int d),
          selection_category := ''POTENTIAL_OTHER_REPORT_LANDING_PAGE''\<rparr>
      else
        d\<lparr>calculated_score :=
            par_sc (num_present d)
              * (if ref_year_int d \<noteq> None \<and> ref_year_int d \<noteq> Some 0
                 then get_year_multiplier (ref_year_int d) else 0),
          selection_category := ''POTENTIAL_OTHER_GENERIC''\<rparr>)"

text \<open>The condition of line 212, on a document without an error.\<close>

definition qualifies_as_fin_rep :: "doc \<Rightarrow> bool" where
  "qualifies_as_fin_rep d \<longleftrightarrow>
     \<not> has_error d \<and> content_type d = Some ''ANNUAL_FINANCIAL_REPORT_DOCUMENT''
     \<and> is_direct_link d \<and> ref_year_int d \<noteq> None"

text \<open>
  \<open>analyzed_docs_raw\<close> after the loop (every entry scored in place), and the two lists
  the loop appends to, in input order.
\<close>

definition scored_docs :: "doc list \<Rightarrow> doc list" where
  "scored_docs analyzed_docs_raw = map score_doc analyzed_docs_raw"

definition potential_fin_reps :: "doc list \<Rightarrow> doc list" where
  "potential_fin_reps analyzed_docs_raw =
     filter (\<lambda>d. selection_category d = ''POTENTIAL_FIN_REP'') (scored_docs analyzed_docs_raw)"

definition potential_other_sources :: "doc list \<Rightarrow> doc list" where
  "potential_other_sources analyzed_docs_raw =
     filter (\<lambda>d. selection_category d \<noteq> ''POTENTIAL_FIN_REP'') (scored_docs analyzed_docs_raw)"

section \<open>Python's list.sort(key=..., reverse=True)\<close>

text \<open>
  The sort is stable, also with \<open>reverse=True\<close>: keys descend, and entries with equal
  keys keep their order. A tuple key is compared lexicographically, which is the order
  of pairs here.
\<close>

fun insort_reverse :: "('a \<Rightarrow> 'k::linorder) \<Rightarrow> 'a \<Rightarrow> 'a list \<Rightarrow> 'a list" where
  "insort_reverse key x [] = [x]"
| "insort_reverse key x (y # ys) =
     (if key y \<le> key x then x # y # ys else y # insort_reverse key x ys)"

definition sort_reverse :: "('a \<Rightarrow> 'k::linorder) \<Rightarrow> 'a list \<Rightarrow> 'a list" where
  "sort_reverse key xs = foldr (insort_reverse key) xs []"

section \<open>Primary selection (lines 251-257)\<close>

text \<open>
  The key of line 251. Every entry of \<open>potential_fin_reps\<close> has a known year, so the
  default of \<open>get\<close> is never used.
\<close>

definition fin_rep_key :: "doc \<Rightarrow> rat \<times> int" where
  "fin_rep_key x = (calculated_score x, (case ref_year_int x of Some y \<Rightarrow> y | None \<Rightarrow> 0))"

definition sorted_fin_reps :: "doc list \<Rightarrow> doc list" where
  "sorted_fin_reps analyzed_docs_raw = sort_reverse fin_rep_key (potential_fin_reps analyzed_docs_raw)"

definition chosen_fin_rep :: "doc list \<Rightarrow> doc option" where
  "chosen_fin_rep analyzed_docs_raw =
     (case sorted_fin_reps analyzed_docs_raw of
        [] \<Rightarrow> None
      | first # _ \<Rightarrow>
          if calculated_score first > 0
          then Some (first\<lparr>final_type_for_csv := Some ''FIN_REP''\<rparr>)
          else None)"

section \<open>Alternates pool (lines 259-279)\<close>

definition demote :: "doc \<Rightarrow> doc" where
  "demote fin_rep_doc =
     fin_rep_doc\<lparr>calculated_score := (75 / 100) * get_year_multiplier (ref_year_int fin_rep_doc),
                 selection_category := ''DEMOTED_FIN_REP_AS_OTHER'',
                 final_type_for_csv := Some ''OTHER''\<rparr>"

definition as_other :: "doc \<Rightarrow> doc" where
  "as_other other_doc = other_doc\<lparr>final_type_for_csv := Some ''OTHER''\<rparr>"

text \<open>The test of lines 262 and 272: the URL is not the chosen primary's.\<close>

definition not_chosen_url :: "doc option \<Rightarrow> doc \<Rightarrow> bool" where
  "not_chosen_url chosen d = (case chosen of None \<Rightarrow> True | Some c \<Rightarrow> url d \<noteq> url c)"

definition all_potential_other_sources :: "doc list \<Rightarrow> doc list" where
  "all_potential_other_sources analyzed_docs_raw =
     map demote (filter (not_chosen_url (chosen_fin_rep analyzed_docs_raw))
                        (sorted_fin_reps analyzed_docs_raw))
     @ map as_other (filter (not_chosen_url (chosen_fin_rep analyzed_docs_raw))
                            (potential_other_sources analyzed_docs_raw))"

definition year_or_minus1 :: "doc \<Rightarrow> int" where
  "year_or_minus1 x = (case ref_year_int x of Some y \<Rightarrow> y | None \<Rightarrow> - 1)"

definition other_key :: "doc \<Rightarrow> rat \<times> int" where
  "other_key x = (calculated_score x, year_or_minus1 x)"

definition sorted_other_sources :: "doc list \<Rightarrow> doc list" where
  "sorted_other_sources analyzed_docs_raw =
     sort_reverse other_key (all_potential_other_sources analyzed_docs_raw)"

section \<open>Taking the alternates (lines 281-292) and backfill (lines 294-321)\<close>

text \<open>
  Both loops carry \<open>final_other_reports\<close> and \<open>seen_urls_for_output\<close>, and stop
  (\<open>break\<close>) once five reports are held.
\<close>

fun take_others :: "doc list \<Rightarrow> doc list \<Rightarrow> string set \<Rightarrow> doc list \<times> string set" where
  "take_others [] final_other_reports seen_urls = (final_other_reports, seen_urls)"
| "take_others (other_doc # rest) final_other_reports seen_urls =
     (if length final_other_reports \<ge> 5 then (final_other_reports, seen_urls)
      else if url other_doc \<notin> seen_urls
              \<and> (calculated_score other_doc > 0 \<or> ref_year_int other_doc \<noteq> None)
      then take_others rest (final_other_reports @ [other_doc]) (insert (url other_doc) seen_urls)
      else take_others rest final_other_reports seen_urls)"

fun fill_others :: "doc list \<Rightarrow> doc list \<Rightarrow> string set \<Rightarrow> doc list \<times> string set" where
  "fill_others [] final_other_reports seen_urls = (final_other_reports, seen_urls)"
| "fill_others (doc_to_fill # rest) final_other_reports seen_urls =
     (if length final_other_reports \<ge> 5 then (final_other_reports, seen_urls)
      else if url doc_to_fill \<notin> seen_urls
      then fill_others rest (final_other_reports @ [doc_to_fill]) (insert (url doc_to_fill) seen_urls)
      else fill_others rest final_other_reports seen_urls)"

definition content_type_pref :: "doc \<Rightarrow> nat" where
  "content_type_pref d =
     (if content_type d = Some ''ANNUAL_FINANCIAL_REPORT_DOCUMENT'' then 3
      else if content_type d = Some ''FINANCIAL_DATA_PAGE'' then 2
      else if content_type d = Some ''INVESTOR_HUB_OR_INDEX'' then 1
      else 0)"

definition sort_key_for_fillers :: "doc \<Rightarrow> int \<times> nat \<times> rat" where
  "sort_key_for_fillers d = (year_or_minus1 d, content_type_pref d, calculated_score d)"

text \<open>
  The backfill reads \<open>analyzed_docs_raw\<close> as the scoring loop left it. The chosen
  primary is the only entry written after that (its \<open>final_type_for_csv\<close>), and its URL
  is in \<open>seen_urls\<close>, so it is never copied here.
\<close>

definition remaining_raw_docs_to_consider :: "doc list \<Rightarrow> string set \<Rightarrow> doc list" where
  "remaining_raw_docs_to_consider analyzed_docs_raw seen_urls =
     map as_other (filter (\<lambda>d. \<not> has_error d \<and> url d \<notin> seen_urls) (scored_docs analyzed_docs_raw))"

definition initial_seen :: "doc option \<Rightarrow> string set" where
  "initial_seen chosen = (case chosen of None \<Rightarrow> {} | Some c \<Rightarrow> {url c})"

definition backfill :: "doc list \<Rightarrow> doc list \<times> string set \<Rightarrow> doc list \<times> string set" where
  "backfill analyzed_docs_raw st =
     (if length (fst st) < 5
      then fill_others
             (sort_reverse sort_key_for_fillers
                (remaining_raw_docs_to_consider analyzed_docs_raw (snd st)))
             (fst st) (snd st)
      else st)"

text \<open>
  \<open>process_company_urls\<close> from line 195 on: the selection, as a function of the list
  \<open>analyzed_docs_raw\<close> that the classification loop produced.
\<close>

definition process_company_urls :: "doc list \<Rightarrow> doc option \<times> doc list" where
  "process_company_urls analyzed_docs_raw =
     (chosen_fin_rep analyzed_docs_raw,
      fst (backfill analyzed_docs_raw
             (take_others (sorted_other_sources analyzed_docs_raw) []
                (initial_seen (chosen_fin_rep analyzed_docs_raw)))))"

section \<open>Output rows (main, lines 430-485)\<close>

record csv_row =
  csv_ID :: string
  csv_NAME :: string
  csv_TYPE :: string
  csv_SRC :: string
  csv_REFYEAR :: string

text \<open>Python's \<open>str\<close> on an \<open>int\<close>: decimal digits, with a minus sign below zero.\<close>

definition digit_char :: "nat \<Rightarrow> char" where
  "digit_char n = char_of (48 + n)"

fun str_of_nat :: "nat \<Rightarrow> string" where
  "str_of_nat n = (if n < 10 then [digit_char n] else str_of_nat (n div 10) @ [digit_char (n mod 10)])"

declare str_of_nat.simps [simp del]

definition py_str_int :: "int \<Rightarrow> string" where
  "py_str_int i = (if i < 0 then CHR ''-'' # str_of_nat (nat (- i)) else str_of_nat (nat i))"

text \<open>The six rows written when no URL was discovered (lines 430-441).\<close>

definition empty_rows :: "string \<Rightarrow> string \<Rightarrow> csv_row list" where
  "empty_rows company_id company_name =
     map (\<lambda>i. \<lparr>csv_ID = company_id, csv_NAME = company_name,
                csv_TYPE = (if i = 0 then ''FIN_REP'' else ''OTHER''),
                csv_SRC = [], csv_REFYEAR = []\<rparr>) [0..<6]"

text \<open>
  Row 1 (lines 454-464). \<open>str(best_fin_rep.get("ref_year_int", ""))\<close> is \<open>str\<close> of the
  year; on \<open>None\<close> it would be the text \<open>None\<close>.
\<close>

definition fin_rep_row :: "string \<Rightarrow> string \<Rightarrow> doc option \<Rightarrow> csv_row" where
  "fin_rep_row company_id company_name best_fin_rep =
     (case best_fin_rep of
        Some best \<Rightarrow>
          \<lparr>csv_ID = company_id, csv_NAME = company_name, csv_TYPE = ''FIN_REP'',
           csv_SRC = url best,
           csv_REFYEAR = (case ref_year_int best of Some y \<Rightarrow> py_str_int y | None \<Rightarrow> ''None'')\<rparr>
      | None \<Rightarrow>
          \<lparr>csv_ID = company_id, csv_NAME = company_name, csv_TYPE = ''FIN_REP'',
           csv_SRC = [], csv_REFYEAR = []\<rparr>)"

text \<open>Rows 2 to 6 (lines 467-482), for the index \<open>i\<close> of the loop.\<close>

definition other_year_str :: "doc \<Rightarrow> string" where
  "other_year_str other_src =
     (let year_str =
        (case ref_year_int other_src of
           Some y \<Rightarrow> py_str_int y
         | None \<Rightarrow> (case llm_ref_year_str other_src of Some s \<Rightarrow> s | None \<Rightarrow> []))
      in if year_str = ''UNKNOWN'' then [] else year_str)"

definition other_row :: "string \<Rightarrow> string \<Rightarrow> doc list \<Rightarrow> nat \<Rightarrow> csv_row" where
  "other_row company_id company_name top_other_sources i =
     (if i < length top_other_sources then
        \<lparr>csv_ID = company_id, csv_NAME = company_name, csv_TYPE = ''OTHER'',
         csv_SRC = url (top_other_sources ! i),
         csv_REFYEAR = other_year_str (top_other_sources ! i)\<rparr>
      else
        \<lparr>csv_ID = company_id, csv_NAME = company_name, csv_TYPE = ''OTHER'',
         csv_SRC = [], csv_REFYEAR = []\<rparr>)"

definition output_csv_rows :: "string \<Rightarrow> string \<Rightarrow> doc option \<times> doc list \<Rightarrow> csv_row list" where
  "output_csv_rows company_id company_name result =
     fin_rep_row company_id company_name (fst result)
     # map (other_row company_id company_name (snd result)) [0..<5]"

text \<open>
  What \<open>main\<close> writes for one company, from line 430 on: \<open>all_discovered_urls\<close> is the
  collected URL set as a list, \<open>analyzed_docs_raw\<close> the classified documents that
  \<open>process_company_urls\<close> builds from it.
\<close>

definition company_rows :: "string \<Rightarrow> string \<Rightarrow> string list \<Rightarrow> doc list \<Rightarrow> csv_row list" where
  "company_rows company_id company_name all_discovered_urls analyzed_docs_raw =
     (if all_discovered_urls = [] then empty_rows company_id company_name
      else output_csv_rows company_id company_name (process_company_urls analyzed_docs_raw))"

section \<open>The invariant of the two selection loops\<close>

definition loop_inv :: "string set \<Rightarrow> doc list \<times> string set \<Rightarrow> bool" where
  "loop_inv S0 st \<longleftrightarrow>
     distinct (map url (fst st)) \<and> snd st = S0 \<union> url ` set (fst st)
     \<and> S0 \<inter> url ` set (fst st) = {} \<and> length (fst st) \<le> 5"

section \<open>The documents selected for one company\<close>

text \<open>The primary, when there is one, followed by the alternates.\<close>

definition selected_docs :: "doc option \<times> doc list \<Rightarrow> doc list" where
  "selected_docs result = (case fst result of None \<Rightarrow> [] | Some p \<Rightarrow> [p]) @ snd result"

text \<open>The condition of line 231: a report that is not a direct file link.\<close>

definition is_landing_page :: "doc \<Rightarrow> bool" where
  "is_landing_page d \<longleftrightarrow>
     \<not> has_error d \<and> content_type d = Some ''ANNUAL_FINANCIAL_REPORT_DOCUMENT''
     \<and> \<not> is_direct_link d \<and> ref_year_int d \<noteq> None"

section \<open>Sample documents\<close>

text \<open>
  A classified document as the classification loop leaves it: URL, error, content type,
  year and direct-link flag as given, no data points, nothing written by the selection.
\<close>

definition mk_doc ::
  "string \<Rightarrow> string option \<Rightarrow> string option \<Rightarrow> int option \<Rightarrow> string option \<Rightarrow> doc" where
  "mk_doc u e ct y dl =
     \<lparr>url = u, error = e, content_type = ct, ref_year_int = y,
      llm_ref_year_str = (case y of None \<Rightarrow> Some ''UNKNOWN'' | Some _ \<Rightarrow> None),
      is_direct_file_link = dl, data_points_present = [],
      calculated_score = 0, selection_category = ''UNKNOWN'', final_type_for_csv = None\<rparr>"

text \<open>A direct annual report file of the given year.\<close>

definition report_pdf :: "string \<Rightarrow> int \<Rightarrow> doc" where
  "report_pdf u y = mk_doc u None (Some ''ANNUAL_FINANCIAL_REPORT_DOCUMENT'') (Some y) (Some ''YES'')"

text \<open>A page about an annual report of the given year, not a direct file.\<close>

definition report_page :: "string \<Rightarrow> int \<Rightarrow> doc" where
  "report_page u y = mk_doc u None (Some ''ANNUAL_FINANCIAL_REPORT_DOCUMENT'') (Some y) (Some ''NO'')"

section \<open>The description of a report file used by the specification\<close>

text \<open>
  A document with content type annual report, direct file link YES and the given
  reference year; the error field is not consulted.
\<close>

definition is_report_file_of_year :: "int \<Rightarrow> doc \<Rightarrow> bool" where
  "is_report_file_of_year y d \<longleftrightarrow>
     content_type d = Some ''ANNUAL_FINANCIAL_REPORT_DOCUMENT'' \<and> is_direct_link d
     \<and> ref_year_int d = Some y"

section \<open>Python's int on a string\<close>

text \<open>
  \<open>int(s)\<close> for an ASCII string: whitespace around the literal is dropped, a sign may
  lead, and the digits may be grouped by single underscores. \<open>None\<close> stands for
  ValueError. The interpreter's limit on the length of digit strings is left out.
\<close>

definition is_digit :: "char \<Rightarrow> bool" where
  "is_digit c \<longleftrightarrow> (48::nat) \<le> of_char c \<and> of_char c \<le> (57::nat)"

definition is_py_space :: "char \<Rightarrow> bool" where
  "is_py_space c \<longleftrightarrow> of_char c \<in> {9, 10, 11, 12, 13, 28, 29, 30, 31, 32::nat}"

definition py_strip :: "string \<Rightarrow> string" where
  "py_strip s = rev (dropWhile is_py_space (rev (dropWhile is_py_space s)))"

definition digits_value :: "string \<Rightarrow> int" where
  "digits_value s = foldl (\<lambda>acc c. 10 * acc + (int (of_char c) - 48)) 0 (filter is_digit s)"

fun no_double_underscore :: "string \<Rightarrow> bool" where
  "no_double_underscore (a # b # rest) =
     (\<not> (a = CHR ''_'' \<and> b = CHR ''_'') \<and> no_double_underscore (b # rest))"
| "no_double_underscore _ = True"

definition valid_int_body :: "string \<Rightarrow> bool" where
  "valid_int_body s \<longleftrightarrow>
     s \<noteq> [] \<and> is_digit (hd s) \<and> is_digit (last s)
     \<and> list_all (\<lambda>c. is_digit c \<or> c = CHR ''_'') s \<and> no_double_underscore s"

definition py_int_of_str :: "string \<Rightarrow> int option" where
  "py_int_of_str s =
     (let t = py_strip s;
          negative = (t \<noteq> [] \<and> hd t = CHR ''-'');
          body = (if t \<noteq> [] \<and> (hd t = CHR ''-'' \<or> hd t = CHR ''+'') then tl t else t)
      in if valid_int_body body
         then Some (if negative then - digits_value body else digits_value body)
         else None)"

section \<open>The classification loop (process\_company\_urls, lines 166-193)\<close>

text \<open>
  Before the selection, every document is a Python dict built from the parsed answer of
  the language model. The values are those of \<open>json.loads\<close>: \<open>None\<close>, booleans, integers,
  floats, strings, lists and dicts. A finite float is read as a rational; NaN and the
  infinities are left out.
\<close>

datatype json =
  JNull
| JBool bool
| JInt int
| JFloat rat
| JStr string
| JList "json list"
| JObj "(string \<times> json) list"

type_synonym pydict = "(string \<times> json) list"

datatype py_error = TypeError | ValueError

text \<open>Truth value of a Python object, as \<open>not llm_result\<close> tests it.\<close>

fun truthy :: "json \<Rightarrow> bool" where
  "truthy JNull = False"
| "truthy (JBool b) = b"
| "truthy (JInt i) = (i \<noteq> 0)"
| "truthy (JFloat r) = (r \<noteq> 0)"
| "truthy (JStr s) = (s \<noteq> [])"
| "truthy (JList xs) = (xs \<noteq> [])"
| "truthy (JObj kvs) = (kvs \<noteq> [])"

text \<open>\<open>d[k] = v\<close> and \<open>d.get(k)\<close> on a dict with string keys.\<close>

fun dict_set :: "string \<Rightarrow> json \<Rightarrow> pydict \<Rightarrow> pydict" where
  "dict_set k v [] = [(k, v)]"
| "dict_set k v ((k', v') # rest) =
     (if k' = k then (k, v) # rest else (k', v') # dict_set k v rest)"

definition dict_get :: "pydict \<Rightarrow> string \<Rightarrow> json option" where
  "dict_get d k = map_of d k"

text \<open>
  \<open>dict.update(other)\<close>. A dict is merged key by key. Anything else is iterated as a
  sequence of pairs: an element must itself be iterable (else TypeError) and have exactly
  two items (else ValueError), the first of them hashable (else TypeError). A string
  iterates as its characters, a dict as its keys. A key that is not a string is never
  read by the code that follows, so it is not stored.
\<close>

fun update_pair :: "json \<Rightarrow> pydict \<Rightarrow> py_error + pydict" where
  "update_pair (JList [JStr k, v]) d = Inr (dict_set k v d)"
| "update_pair (JList [JList _, v]) d = Inl TypeError"
| "update_pair (JList [JObj _, v]) d = Inl TypeError"
| "update_pair (JList [k, v]) d = Inr d"
| "update_pair (JList _) d = Inl ValueError"
| "update_pair (JStr [a, b]) d = Inr (dict_set [a] (JStr [b]) d)"
| "update_pair (JStr _) d = Inl ValueError"
| "update_pair (JObj [(k1, _), (k2, _)]) d = Inr (dict_set k1 (JStr k2) d)"
| "update_pair (JObj _) d = Inl ValueError"
| "update_pair _ d = Inl TypeError"

fun update_pairs :: "json list \<Rightarrow> pydict \<Rightarrow> py_error + pydict" where
  "update_pairs [] d = Inr d"
| "update_pairs (x # xs) d =
     (case update_pair x d of Inl e \<Rightarrow> Inl e | Inr d' \<Rightarrow> update_pairs xs d')"

fun dict_update :: "pydict \<Rightarrow> json \<Rightarrow> py_error + pydict" where
  "dict_update d (JObj kvs) = Inr (fold (\<lambda>kv acc. dict_set (fst kv) (snd kv) acc) kvs d)"
| "dict_update d (JList xs) = update_pairs xs d"
| "dict_update d (JStr s) = update_pairs (map (\<lambda>c. JStr [c]) s) d"
| "dict_update d _ = Inl TypeError"

text \<open>
  \<open>int(x)\<close>. A string is parsed as a decimal literal or raises ValueError. A float is
  truncated towards zero; \<open>None\<close>, a list and a dict raise TypeError.
\<close>

fun py_int :: "json \<Rightarrow> py_error + int" where
  "py_int (JInt i) = Inr i"
| "py_int (JBool b) = Inr (if b then 1 else 0)"
| "py_int (JFloat r) = Inr (if 0 \<le> r then \<lfloor>r\<rfloor> else \<lceil>r\<rceil>)"
| "py_int (JStr s) = (case py_int_of_str s of Some i \<Rightarrow> Inr i | None \<Rightarrow> Inl ValueError)"
| "py_int _ = Inl TypeError"

text \<open>
  \<open>call_llm_for_analysis\<close>, lines 144-162. The external call and the parsing of its text
  happen inside the \<open>try\<close>: an attempt either raises (and is caught) or returns what
  \<open>extract_json_from_response\<close> gives, \<open>None\<close> (here \<open>JNull\<close>) when no JSON is found.
  \<open>llm\<close> gives the outcome of each attempt by its number. The run records the value
  returned, the number of calls made and the delays slept.
\<close>

datatype llm_outcome = Raises | Returns json

record llm_run =
  llm_result :: json
  calls :: nat
  sleeps :: "nat list"

fun try_attempts :: "(nat \<Rightarrow> llm_outcome) \<Rightarrow> nat \<Rightarrow> nat \<Rightarrow> nat list \<Rightarrow> llm_run" where
  "try_attempts llm number_of_retries retry_delay [] =
     \<lparr>llm_result = JObj [], calls = 0, sleeps = []\<rparr>"
| "try_attempts llm number_of_retries retry_delay (attempt # rest) =
     (case llm attempt of
        Returns j \<Rightarrow> \<lparr>llm_result = j, calls = 1, sleeps = []\<rparr>
      | Raises \<Rightarrow>
          (let run = try_attempts llm number_of_retries retry_delay rest
           in run\<lparr>calls := calls run + 1,
                  sleeps := (if int attempt < int number_of_retries - 1 then [retry_delay] else [])
                            @ sleeps run\<rparr>))"

definition call_llm_for_analysis :: "(nat \<Rightarrow> llm_outcome) \<Rightarrow> nat \<Rightarrow> nat \<Rightarrow> llm_run" where
  "call_llm_for_analysis llm number_of_retries retry_delay =
     try_attempts llm number_of_retries retry_delay [0..<number_of_retries]"

text \<open>
  The body of the loop of line 167 for one URL. \<open>fetched\<close> is the pair that
  \<open>fetch_content_snippet\<close> returned (it catches every exception itself); the title may be
  \<open>None\<close>. The result is the dict appended to \<open>analyzed_docs_raw\<close>, or the exception
  that leaves the loop. The call is made with the default arguments, 3 attempts and a
  delay of 2.
\<close>

definition error_doc :: "string \<Rightarrow> string \<Rightarrow> pydict" where
  "error_doc u msg = [(''url'', JStr u), (''error'', JStr msg), (''type'', JStr ''ERROR'')]"

definition set_ref_year :: "pydict \<Rightarrow> py_error + pydict" where
  "set_ref_year doc_info =
     (let ref_year = (case dict_get doc_info ''ref_year'' of None \<Rightarrow> JStr ''UNKNOWN'' | Some v \<Rightarrow> v);
          doc1 = dict_set ''llm_ref_year_str'' ref_year doc_info
      in if ref_year \<noteq> JStr ''UNKNOWN'' then
           (case py_int ref_year of
              Inr i \<Rightarrow> Inr (dict_set ''ref_year_int'' (JInt i) doc1)
            | Inl ValueError \<Rightarrow>
                Inr (dict_set ''llm_ref_year_str'' (JStr ''UNKNOWN'')
                       (dict_set ''ref_year_int'' JNull doc1))
            | Inl TypeError \<Rightarrow> Inl TypeError)
         else Inr (dict_set ''ref_year_int'' JNull doc1))"

definition analyze_url ::
  "string option \<times> string \<Rightarrow> (nat \<Rightarrow> llm_outcome) \<Rightarrow> string \<Rightarrow> py_error + pydict" where
  "analyze_url fetched llm u =
     (if fst fetched = Some ''Fetch Error'' \<or> fst fetched = Some ''Processing Error''
      then Inr (error_doc u (snd fetched))
      else
        (let result = llm_result (call_llm_for_analysis llm 3 2) in
         if \<not> truthy result then Inr (error_doc u ''LLM analysis failed'')
         else
           (case dict_update [(''url'', JStr u), (''llm_ref_year_str'', JStr ''UNKNOWN'')] result of
              Inl e \<Rightarrow> Inl e
            | Inr doc_info \<Rightarrow> set_ref_year doc_info)))"

text \<open>The loop: the first exception ends it, and with it the whole function.\<close>

fun analyze_urls ::
  "(string \<Rightarrow> string option \<times> string) \<Rightarrow> (string \<Rightarrow> nat \<Rightarrow> llm_outcome) \<Rightarrow> string list
     \<Rightarrow> py_error + pydict list" where
  "analyze_urls fetch llm [] = Inr []"
| "analyze_urls fetch llm (u # us) =
     (case analyze_url (fetch u) (llm u) u of
        Inl e \<Rightarrow> Inl e
      | Inr d \<Rightarrow>
          (case analyze_urls fetch llm us of
             Inl e \<Rightarrow> Inl e
           | Inr ds \<Rightarrow> Inr (d # ds)))"

section \<open>The candidates of the backfill\<close>


section \<open>Year signals of a link (scraper.py, extract\_report\_urls\_from\_page)\<close>















section \<open>The plausible range of the specification\<close>




section \<open>Properties of the recency weight\<close>

lemma get_year_multiplier_nonneg: "0 \<le> get_year_multiplier year"
  by (simp add: get_year_multiplier_def split: option.split)

lemma get_year_multiplier_le_one: "get_year_multiplier year \<le> 1"
  by (simp add: get_year_multiplier_def split: option.split)

lemma get_year_multiplier_pos_iff:
  "0 < get_year_multiplier year \<longleftrightarrow> (\<exists>y. year = Some y \<and> 2019 \<le> y)"
  by (auto simp: get_year_multiplier_def split: option.split)

section \<open>Facts about the stable descending sort\<close>

lemma mset_insort_reverse: "mset (insort_reverse key x xs) = add_mset x (mset xs)"
  by (induction xs) simp_all

lemma mset_sort_reverse: "mset (sort_reverse key xs) = mset xs"
  unfolding sort_reverse_def by (induction xs) (simp_all add: mset_insort_reverse)

lemma set_sort_reverse: "set (sort_reverse key xs) = set xs"
  using mset_sort_reverse [of key xs] by (metis set_mset_mset)

lemma length_sort_reverse: "length (sort_reverse key xs) = length xs"
  using mset_sort_reverse [of key xs] by (metis size_mset)

lemma set_insort_reverse: "set (insort_reverse key x xs) = insert x (set xs)"
  using mset_insort_reverse [of key x xs] by (metis set_mset_add_mset_insert set_mset_mset)

lemma descending_insort_reverse:
  "sorted_wrt (\<lambda>a b. key b \<le> key a) xs \<Longrightarrow>
   sorted_wrt (\<lambda>a b. key b \<le> key a) (insort_reverse key x xs)"
proof (induction xs)
  case Nil
  show ?case by simp
next
  case (Cons y ys)
  show ?case
  proof (cases "key y \<le> key x")
    case True
    with Cons.prems show ?thesis by auto
  next
    case False
    with Cons show ?thesis by (auto simp: set_insort_reverse)
  qed
qed

lemma descending_sort_reverse: "sorted_wrt (\<lambda>a b. key b \<le> key a) (sort_reverse key xs)"
  unfolding sort_reverse_def
  by (induction xs) (simp_all add: descending_insort_reverse)

lemma sort_reverse_Nil_iff: "sort_reverse key xs = [] \<longleftrightarrow> xs = []"
  using length_sort_reverse [of key xs] by (metis length_0_conv)

lemma sort_reverse_head_max:
  assumes "sort_reverse key xs = t # ts" and "x \<in> set xs"
  shows "key x \<le> key t"
proof -
  have "sorted_wrt (\<lambda>a b. key b \<le> key a) (t # ts)"
    using descending_sort_reverse [of key xs] assms(1) by simp
  moreover have "x \<in> set (t # ts)"
    using assms set_sort_reverse [of key xs] by simp
  ultimately show ?thesis by auto
qed

lemma sort_reverse_head_in: "sort_reverse key xs = t # ts \<Longrightarrow> t \<in> set xs"
  using set_sort_reverse [of key xs] by (metis list.set_intros(1))

text \<open>Stability: entries with one key keep their order.\<close>

lemma filter_insort_reverse:
  "sorted_wrt (\<lambda>a b. key b \<le> key a) xs \<Longrightarrow>
   filter (\<lambda>y. key y = k) (insort_reverse key x xs) =
     (if key x = k then x # filter (\<lambda>y. key y = k) xs else filter (\<lambda>y. key y = k) xs)"
proof (induction xs)
  case Nil
  show ?case by simp
next
  case (Cons y ys)
  show ?case
  proof (cases "key y \<le> key x")
    case True
    then show ?thesis by simp
  next
    case False
    from Cons.prems have desc: "sorted_wrt (\<lambda>a b. key b \<le> key a) ys"
      and below: "\<forall>z\<in>set ys. key z \<le> key y" by auto
    from False have "key y \<noteq> key x" by auto
    with False Cons.IH [OF desc] show ?thesis by auto
  qed
qed

lemma sort_reverse_stable:
  "filter (\<lambda>y. key y = k) (sort_reverse key xs) = filter (\<lambda>y. key y = k) xs"
proof (induction xs)
  case Nil
  show ?case by (simp add: sort_reverse_def)
next
  case (Cons x xs)
  have step: "sort_reverse key (x # xs) = insort_reverse key x (sort_reverse key xs)"
    by (simp add: sort_reverse_def)
  show ?case
    unfolding step
    by (simp add: filter_insort_reverse [OF descending_sort_reverse] Cons.IH)
qed

section \<open>Facts about scoring\<close>

lemma score_doc_fields [simp]:
  "url (score_doc d) = url d"
  "error (score_doc d) = error d"
  "content_type (score_doc d) = content_type d"
  "ref_year_int (score_doc d) = ref_year_int d"
  "llm_ref_year_str (score_doc d) = llm_ref_year_str d"
  "is_direct_file_link (score_doc d) = is_direct_file_link d"
  by (simp_all add: score_doc_def)

lemma has_error_score_doc [simp]: "has_error (score_doc d) = has_error d"
  by (simp add: has_error_def)

lemma is_direct_link_score_doc [simp]: "is_direct_link (score_doc d) = is_direct_link d"
  by (simp add: is_direct_link_def)

lemma category_fin_rep_iff:
  "selection_category (score_doc d) = ''POTENTIAL_FIN_REP'' \<longleftrightarrow> qualifies_as_fin_rep d"
  by (simp add: score_doc_def qualifies_as_fin_rep_def)

lemma score_of_fin_rep:
  "qualifies_as_fin_rep d \<Longrightarrow>
   calculated_score (score_doc d) = get_year_multiplier (ref_year_int d)"
  by (simp add: score_doc_def qualifies_as_fin_rep_def)

lemma score_of_error: "has_error d \<Longrightarrow> calculated_score (score_doc d) = 0"
  by (simp add: score_doc_def)

lemma category_of_error: "has_error d \<Longrightarrow> selection_category (score_doc d) = ''ERROR''"
  by (simp add: score_doc_def)

lemma potential_fin_reps_eq:
  "potential_fin_reps docs = map score_doc (filter qualifies_as_fin_rep docs)"
  by (simp add: potential_fin_reps_def scored_docs_def filter_map comp_def category_fin_rep_iff)

lemma potential_other_sources_eq:
  "potential_other_sources docs = map score_doc (filter (\<lambda>d. \<not> qualifies_as_fin_rep d) docs)"
  by (simp add: potential_other_sources_def scored_docs_def filter_map comp_def category_fin_rep_iff)

lemma in_sorted_fin_reps:
  "f \<in> set (sorted_fin_reps docs) \<longleftrightarrow> (\<exists>d\<in>set docs. qualifies_as_fin_rep d \<and> f = score_doc d)"
  by (auto simp: sorted_fin_reps_def set_sort_reverse potential_fin_reps_eq)

lemma chosen_fin_rep_SomeD:
  assumes "chosen_fin_rep docs = Some p"
  obtains first rest where "sorted_fin_reps docs = first # rest"
    and "0 < calculated_score first"
    and "p = first\<lparr>final_type_for_csv := Some ''FIN_REP''\<rparr>"
  using assms unfolding chosen_fin_rep_def
  by (auto split: list.splits if_splits)

lemma chosen_fin_rep_source:
  assumes "chosen_fin_rep docs = Some p"
  obtains d where "d \<in> set docs" and "qualifies_as_fin_rep d"
    and "p = (score_doc d)\<lparr>final_type_for_csv := Some ''FIN_REP''\<rparr>"
    and "0 < get_year_multiplier (ref_year_int d)"
proof -
  from assms obtain first rest where s: "sorted_fin_reps docs = first # rest"
    and pos: "0 < calculated_score first"
    and p: "p = first\<lparr>final_type_for_csv := Some ''FIN_REP''\<rparr>"
    by (rule chosen_fin_rep_SomeD)
  from s have "first \<in> set (sorted_fin_reps docs)" by simp
  then obtain d where d: "d \<in> set docs" "qualifies_as_fin_rep d" "first = score_doc d"
    unfolding in_sorted_fin_reps by blast
  with pos have "0 < get_year_multiplier (ref_year_int d)"
    by (simp add: score_of_fin_rep)
  with d p that show ?thesis by blast
qed

section \<open>Facts about the two selection loops\<close>

text \<open>
  The loop invariant: the reports held have pairwise different URLs, none of them in the
  set \<open>S0\<close> the loop started from, and \<open>seen_urls\<close> is \<open>S0\<close> plus the URLs held.
\<close>

lemma take_others_inv:
  "loop_inv S0 (final, seen) \<Longrightarrow> loop_inv S0 (take_others ds final seen)"
proof (induction ds arbitrary: final seen)
  case Nil
  then show ?case by simp
next
  case (Cons d ds)
  show ?case
  proof (cases "5 \<le> length final")
    case True
    with Cons.prems show ?thesis by simp
  next
    case short: False
    show ?thesis
    proof (cases "url d \<notin> seen \<and> (calculated_score d > 0 \<or> ref_year_int d \<noteq> None)")
      case True
      with short Cons.prems have "loop_inv S0 (final @ [d], insert (url d) seen)"
        by (auto simp: loop_inv_def)
      from Cons.IH [OF this] short True show ?thesis by simp
    next
      case False
      with short Cons.IH [OF Cons.prems] show ?thesis by auto
    qed
  qed
qed

lemma fill_others_inv:
  "loop_inv S0 (final, seen) \<Longrightarrow> loop_inv S0 (fill_others ds final seen)"
proof (induction ds arbitrary: final seen)
  case Nil
  then show ?case by simp
next
  case (Cons d ds)
  show ?case
  proof (cases "5 \<le> length final")
    case True
    with Cons.prems show ?thesis by simp
  next
    case short: False
    show ?thesis
    proof (cases "url d \<notin> seen")
      case True
      with short Cons.prems have "loop_inv S0 (final @ [d], insert (url d) seen)"
        by (auto simp: loop_inv_def)
      from Cons.IH [OF this] short True show ?thesis by simp
    next
      case False
      with short Cons.IH [OF Cons.prems] show ?thesis by auto
    qed
  qed
qed

lemma backfill_inv: "loop_inv S0 st \<Longrightarrow> loop_inv S0 (backfill docs st)"
  unfolding backfill_def
  by (cases st) (simp add: fill_others_inv)

lemma selection_inv:
  "loop_inv (initial_seen (chosen_fin_rep docs))
     (backfill docs (take_others (sorted_other_sources docs) []
        (initial_seen (chosen_fin_rep docs))))"
proof -
  have "loop_inv (initial_seen (chosen_fin_rep docs)) ([], initial_seen (chosen_fin_rep docs))"
    by (simp add: loop_inv_def)
  then show ?thesis
    by (intro backfill_inv take_others_inv)
qed

text \<open>Where the entries of the result come from.\<close>

lemma take_others_subset:
  "set (fst (take_others ds final seen)) \<subseteq>
     set final \<union> {d \<in> set ds. calculated_score d > 0 \<or> ref_year_int d \<noteq> None}"
proof (induction ds arbitrary: final seen)
  case Nil
  show ?case by simp
next
  case (Cons d ds)
  show ?case
    using Cons.IH [of "final @ [d]" "insert (url d) seen"] Cons.IH [of final seen]
    by auto
qed

lemma fill_others_subset:
  "set (fst (fill_others ds final seen)) \<subseteq> set final \<union> set ds"
proof (induction ds arbitrary: final seen)
  case Nil
  show ?case by simp
next
  case (Cons d ds)
  show ?case
    using Cons.IH [of "final @ [d]" "insert (url d) seen"] Cons.IH [of final seen]
    by auto
qed

lemma backfill_subset:
  "set (fst (backfill docs st)) \<subseteq>
     set (fst st) \<union> as_other ` {d \<in> set (scored_docs docs). \<not> has_error d}"
proof (cases "length (fst st) < 5")
  case True
  have "set (fst (backfill docs st)) \<subseteq>
          set (fst st) \<union> set (sort_reverse sort_key_for_fillers
                                 (remaining_raw_docs_to_consider docs (snd st)))"
    using True fill_others_subset by (simp add: backfill_def)
  also have "\<dots> \<subseteq> set (fst st) \<union> as_other ` {d \<in> set (scored_docs docs). \<not> has_error d}"
    by (auto simp: set_sort_reverse remaining_raw_docs_to_consider_def)
  finally show ?thesis .
next
  case False
  then show ?thesis by (simp add: backfill_def)
qed

section \<open>Facts about the output rows\<close>

lemma str_of_nat_not_Nil: "str_of_nat n \<noteq> []"
  by (subst str_of_nat.simps) simp

lemma py_str_int_not_Nil: "py_str_int i \<noteq> []"
  by (simp add: py_str_int_def str_of_nat_not_Nil)








section \<open>Where the selected documents come from\<close>

lemma demote_fields [simp]:
  "url (demote d) = url d"
  "error (demote d) = error d"
  "ref_year_int (demote d) = ref_year_int d"
  "content_type (demote d) = content_type d"
  "selection_category (demote d) = ''DEMOTED_FIN_REP_AS_OTHER''"
  "calculated_score (demote d) = (75 / 100) * get_year_multiplier (ref_year_int d)"
  by (simp_all add: demote_def)

lemma as_other_fields [simp]:
  "url (as_other d) = url d"
  "error (as_other d) = error d"
  "ref_year_int (as_other d) = ref_year_int d"
  "content_type (as_other d) = content_type d"
  "selection_category (as_other d) = selection_category d"
  "calculated_score (as_other d) = calculated_score d"
  by (simp_all add: as_other_def)

lemma has_error_demote [simp]: "has_error (demote d) = has_error d"
  by (simp add: has_error_def)

lemma has_error_as_other [simp]: "has_error (as_other d) = has_error d"
  by (simp add: has_error_def)

lemma category_score_doc_not_demoted:
  "selection_category (score_doc d) \<noteq> ''DEMOTED_FIN_REP_AS_OTHER''"
  by (simp add: score_doc_def)

lemma pool_origin:
  assumes "a \<in> set (all_potential_other_sources docs)"
  shows "(\<exists>d\<in>set docs. qualifies_as_fin_rep d \<and> a = demote (score_doc d)
            \<and> not_chosen_url (chosen_fin_rep docs) (score_doc d))
         \<or> (\<exists>d\<in>set docs. \<not> qualifies_as_fin_rep d \<and> a = as_other (score_doc d))"
  using assms
  by (auto simp: all_potential_other_sources_def in_sorted_fin_reps potential_other_sources_eq)

lemma demoted_in_pool:
  assumes "f \<in> set (sorted_fin_reps docs)" and "not_chosen_url (chosen_fin_rep docs) f"
  shows "demote f \<in> set (all_potential_other_sources docs)"
  using assms by (simp add: all_potential_other_sources_def)

lemma alternates_origin:
  assumes "a \<in> set (snd (process_company_urls docs))"
  shows "(\<exists>d\<in>set docs. qualifies_as_fin_rep d \<and> a = demote (score_doc d))
         \<or> (\<exists>d\<in>set docs. \<not> qualifies_as_fin_rep d \<and> a = as_other (score_doc d)
               \<and> (0 < calculated_score (score_doc d) \<or> ref_year_int d \<noteq> None))
         \<or> (\<exists>d\<in>set docs. \<not> has_error d \<and> a = as_other (score_doc d))"
proof -
  let ?seen = "initial_seen (chosen_fin_rep docs)"
  let ?st = "take_others (sorted_other_sources docs) [] ?seen"
  from assms have "a \<in> set (fst (backfill docs ?st))"
    by (simp add: process_company_urls_def)
  with backfill_subset [of docs ?st]
  consider (taken) "a \<in> set (fst ?st)"
    | (filled) "a \<in> as_other ` {d \<in> set (scored_docs docs). \<not> has_error d}"
    by blast
  then show ?thesis
  proof cases
    case taken
    with take_others_subset [of "sorted_other_sources docs" "[]" ?seen]
    have pool: "a \<in> set (all_potential_other_sources docs)"
      and evid: "0 < calculated_score a \<or> ref_year_int a \<noteq> None"
      by (auto simp: sorted_other_sources_def set_sort_reverse)
    from pool_origin [OF pool] evid show ?thesis by auto
  next
    case filled
    then show ?thesis by (auto simp: scored_docs_def)
  qed
qed

lemma chosen_has_no_error:
  assumes "chosen_fin_rep docs = Some p"
  shows "\<not> has_error p"
proof -
  from assms obtain d where "qualifies_as_fin_rep d"
    and "p = (score_doc d)\<lparr>final_type_for_csv := Some ''FIN_REP''\<rparr>"
    by (rule chosen_fin_rep_source)
  then show ?thesis by (simp add: has_error_def qualifies_as_fin_rep_def)
qed

lemma chosen_year_known:
  assumes "chosen_fin_rep docs = Some p"
  shows "\<exists>y. ref_year_int p = Some y \<and> 2019 \<le> y"
proof -
  from assms obtain d where "0 < get_year_multiplier (ref_year_int d)"
    and "p = (score_doc d)\<lparr>final_type_for_csv := Some ''FIN_REP''\<rparr>"
    by (rule chosen_fin_rep_source)
  then show ?thesis by (simp add: get_year_multiplier_pos_iff)
qed

lemma chosen_score:
  assumes "chosen_fin_rep docs = Some p"
  shows "calculated_score p = 1 * get_year_multiplier (ref_year_int p) \<and> 0 < calculated_score p"
proof -
  from assms obtain d where "qualifies_as_fin_rep d"
    and "0 < get_year_multiplier (ref_year_int d)"
    and "p = (score_doc d)\<lparr>final_type_for_csv := Some ''FIN_REP''\<rparr>"
    by (rule chosen_fin_rep_source)
  then show ?thesis by (simp add: score_of_fin_rep)
qed

lemma selected_urls_distinct: "distinct (map url (selected_docs (process_company_urls docs)))"
proof -
  let ?c = "chosen_fin_rep docs"
  let ?st = "backfill docs (take_others (sorted_other_sources docs) [] (initial_seen ?c))"
  have inv: "loop_inv (initial_seen ?c) ?st" by (rule selection_inv)
  have alts: "snd (process_company_urls docs) = fst ?st"
    and prim: "fst (process_company_urls docs) = ?c"
    by (simp_all add: process_company_urls_def)
  show ?thesis
  proof (cases ?c)
    case None
    with inv alts prim show ?thesis by (simp add: selected_docs_def loop_inv_def)
  next
    case (Some p)
    with inv have "url p \<notin> url ` set (fst ?st)"
      by (auto simp: loop_inv_def initial_seen_def)
    with inv alts prim Some show ?thesis by (simp add: selected_docs_def loop_inv_def)
  qed
qed

lemma alternates_at_most_five: "length (snd (process_company_urls docs)) \<le> 5"
  using selection_inv [of docs] by (simp add: process_company_urls_def loop_inv_def)

lemma landing_page_score:
  "is_landing_page l \<Longrightarrow>
   calculated_score (score_doc l) = (5 / 10) * get_year_multiplier (ref_year_int l)"
  by (simp add: score_doc_def is_landing_page_def)

section \<open>Evaluation of the selection on concrete lists\<close>

lemmas selection_eval =
  process_company_urls_def chosen_fin_rep_def sorted_fin_reps_def potential_fin_reps_def
  potential_other_sources_def scored_docs_def score_doc_def has_error_def is_direct_link_def
  num_present_def par_sc_def get_year_multiplier_def sort_reverse_def fin_rep_key_def
  demote_def as_other_def not_chosen_url_def all_potential_other_sources_def
  year_or_minus1_def other_key_def sorted_other_sources_def content_type_pref_def
  sort_key_for_fillers_def remaining_raw_docs_to_consider_def initial_seen_def backfill_def
  selected_docs_def mk_doc_def report_pdf_def report_page_def


lemma upt_6: "[0..<6] = [0, 1, 2, 3, 4, 5::nat]"
  by (simp add: upt_rec)

lemma src_other_rows:
  assumes "length others \<le> 5"
  shows "map csv_SRC (map (other_row company_id company_name others) [0..<5]) =
           map url others @ replicate (5 - length others) []"
proof (rule nth_equalityI)
  show "length (map csv_SRC (map (other_row company_id company_name others) [0..<5])) =
          length (map url others @ replicate (5 - length others) [])"
    using assms by simp
next
  fix i
  assume "i < length (map csv_SRC (map (other_row company_id company_name others) [0..<5]))"
  then have i: "i < 5" by simp
  then show "map csv_SRC (map (other_row company_id company_name others) [0..<5]) ! i =
               (map url others @ replicate (5 - length others) []) ! i"
    using assms by (auto simp: other_row_def nth_append)
qed

lemma src_output_csv_rows:
  "map csv_SRC (output_csv_rows company_id company_name (process_company_urls docs)) =
     (case fst (process_company_urls docs) of None \<Rightarrow> [] | Some p \<Rightarrow> url p)
     # map url (snd (process_company_urls docs))
     @ replicate (5 - length (snd (process_company_urls docs))) []"
  unfolding output_csv_rows_def
  using src_other_rows [OF alternates_at_most_five, of company_id company_name docs]
  by (simp add: fin_rep_row_def split: option.split)

lemma nonempty_src_distinct:
  "distinct (filter (\<lambda>s. s \<noteq> [])
     (map csv_SRC (output_csv_rows company_id company_name (process_company_urls docs))))"
proof -
  let ?r = "process_company_urls docs"
  have d: "distinct (map url (selected_docs ?r))" by (rule selected_urls_distinct)
  have "distinct (filter (\<lambda>s. s \<noteq> []) (map url (selected_docs ?r)))"
    using d by (rule distinct_filter)
  moreover have "filter (\<lambda>s. s \<noteq> [])
       (map csv_SRC (output_csv_rows company_id company_name ?r)) =
     filter (\<lambda>s. s \<noteq> []) (map url (selected_docs ?r))"
    by (simp add: src_output_csv_rows selected_docs_def split: option.split)
  ultimately show ?thesis by simp
qed

section \<open>Facts about the primary\<close>

lemma fin_rep_key_score_doc:
  "qualifies_as_fin_rep d \<Longrightarrow> ref_year_int d = Some y \<Longrightarrow>
   fin_rep_key (score_doc d) = (get_year_multiplier (Some y), y)"
  by (simp add: fin_rep_key_def score_of_fin_rep)

lemma chosen_fin_rep_None_iff:
  "chosen_fin_rep docs = None \<longleftrightarrow> (\<forall>f\<in>set (potential_fin_reps docs). calculated_score f \<le> 0)"
proof (cases "sorted_fin_reps docs")
  case Nil
  then have "potential_fin_reps docs = []"
    by (simp add: sorted_fin_reps_def sort_reverse_Nil_iff)
  with Nil show ?thesis by (simp add: chosen_fin_rep_def)
next
  case (Cons t ts)
  then have s: "sort_reverse fin_rep_key (potential_fin_reps docs) = t # ts"
    by (simp add: sorted_fin_reps_def)
  have t_in: "t \<in> set (potential_fin_reps docs)"
    using s by (rule sort_reverse_head_in)
  have top: "calculated_score f \<le> calculated_score t" if "f \<in> set (potential_fin_reps docs)" for f
    using sort_reverse_head_max [OF s that] by (auto simp: fin_rep_key_def)
  show ?thesis
  proof (cases "0 < calculated_score t")
    case True
    then have "\<not> calculated_score t \<le> 0" by simp
    with t_in have "\<not> (\<forall>f\<in>set (potential_fin_reps docs). calculated_score f \<le> 0)"
      by blast
    moreover from Cons True have "chosen_fin_rep docs \<noteq> None"
      by (simp add: chosen_fin_rep_def)
    ultimately show ?thesis by blast
  next
    case False
    with Cons top show ?thesis by (fastforce simp: chosen_fin_rep_def)
  qed
qed

lemma chosen_fin_rep_maximal:
  assumes "chosen_fin_rep docs = Some p" and "f \<in> set (potential_fin_reps docs)"
  shows "fin_rep_key f \<le> fin_rep_key p"
proof -
  from assms(1) obtain t ts where s: "sorted_fin_reps docs = t # ts"
    and p: "p = t\<lparr>final_type_for_csv := Some ''FIN_REP''\<rparr>"
    by (rule chosen_fin_rep_SomeD)
  from s have "sort_reverse fin_rep_key (potential_fin_reps docs) = t # ts"
    by (simp add: sorted_fin_reps_def)
  from sort_reverse_head_max [OF this assms(2)] p show ?thesis
    by (simp add: fin_rep_key_def)
qed

text \<open>Among the entries with the greatest key, the first one of the input is chosen.\<close>

lemma sort_reverse_head_first:
  assumes "sort_reverse key xs = t # ts"
  shows "filter (\<lambda>y. key y = key t) xs = t # filter (\<lambda>y. key y = key t) ts"
  using sort_reverse_stable [of key "key t" xs] assms by simp

lemma chosen_fin_rep_first:
  assumes "chosen_fin_rep docs = Some p"
  shows "\<exists>t. p = t\<lparr>final_type_for_csv := Some ''FIN_REP''\<rparr>
           \<and> hd (filter (\<lambda>f. fin_rep_key f = fin_rep_key t) (potential_fin_reps docs)) = t"
proof -
  from assms obtain t ts where s: "sorted_fin_reps docs = t # ts"
    and p: "p = t\<lparr>final_type_for_csv := Some ''FIN_REP''\<rparr>"
    by (rule chosen_fin_rep_SomeD)
  from s have "sort_reverse fin_rep_key (potential_fin_reps docs) = t # ts"
    by (simp add: sorted_fin_reps_def)
  from sort_reverse_head_first [OF this] p show ?thesis
    by (intro exI [of _ t]) simp
qed

lemma only_report_of_latest_year_chosen:
  assumes one: "filter (\<lambda>e. qualifies_as_fin_rep e \<and> ref_year_int e = Some y) docs = [d]"
    and latest: "\<forall>e\<in>set docs. qualifies_as_fin_rep e \<longrightarrow> (\<exists>z. ref_year_int e = Some z \<and> z \<le> y)"
    and recent: "2023 \<le> y"
  shows "chosen_fin_rep docs = Some ((score_doc d)\<lparr>final_type_for_csv := Some ''FIN_REP''\<rparr>)"
    and "calculated_score (score_doc d) = 1"
proof -
  from one have "d \<in> set (filter (\<lambda>e. qualifies_as_fin_rep e \<and> ref_year_int e = Some y) docs)"
    by simp
  then have d: "d \<in> set docs" "qualifies_as_fin_rep d" "ref_year_int d = Some y"
    by simp_all
  from recent have my: "get_year_multiplier (Some y) = 1"
    by (simp add: get_year_multiplier_def)
  from d my show score: "calculated_score (score_doc d) = 1"
    by (simp add: score_of_fin_rep)
  have d_in: "score_doc d \<in> set (potential_fin_reps docs)"
    using d by (simp add: potential_fin_reps_eq)
  then have "\<not> (\<forall>f\<in>set (potential_fin_reps docs). calculated_score f \<le> 0)"
    using score by force
  then obtain p where c: "chosen_fin_rep docs = Some p"
    unfolding chosen_fin_rep_None_iff [symmetric] by blast
  from c obtain e where e: "e \<in> set docs" "qualifies_as_fin_rep e"
    and p: "p = (score_doc e)\<lparr>final_type_for_csv := Some ''FIN_REP''\<rparr>"
    by (rule chosen_fin_rep_source)
  from latest e obtain z where z: "ref_year_int e = Some z" "z \<le> y" by blast
  have "fin_rep_key (score_doc d) \<le> fin_rep_key p"
    using c d_in by (rule chosen_fin_rep_maximal)
  also have "fin_rep_key p = fin_rep_key (score_doc e)"
    using p by (simp add: fin_rep_key_def)
  finally have "(1, y) \<le> (get_year_multiplier (Some z), z)"
    using d e z my by (simp add: fin_rep_key_score_doc)
  with get_year_multiplier_le_one [of "Some z"] z have "z = y"
    by (auto simp: less_eq_prod_def less_prod_def)
  with z e have "e \<in> set (filter (\<lambda>e. qualifies_as_fin_rep e \<and> ref_year_int e = Some y) docs)"
    by simp
  with one have "e = d" by simp
  with c p show "chosen_fin_rep docs = Some ((score_doc d)\<lparr>final_type_for_csv := Some ''FIN_REP''\<rparr>)"
    by simp
qed

section \<open>Facts about documents with an error\<close>

lemma selected_error_has_year:
  assumes "a \<in> set (snd (process_company_urls docs))" and "has_error a"
  shows "ref_year_int a \<noteq> None \<and> calculated_score a = 0 \<and> selection_category a = ''ERROR''"
proof -
  from alternates_origin [OF assms(1)]
  consider d where "d \<in> set docs" "qualifies_as_fin_rep d" "a = demote (score_doc d)"
    | d where "d \<in> set docs" "a = as_other (score_doc d)"
        "0 < calculated_score (score_doc d) \<or> ref_year_int d \<noteq> None"
    | d where "d \<in> set docs" "\<not> has_error d" "a = as_other (score_doc d)"
    by blast
  then show ?thesis
  proof cases
    case 1
    with assms(2) show ?thesis by (simp add: qualifies_as_fin_rep_def)
  next
    case 2
    with assms(2) have e: "has_error d" by simp
    with 2 show ?thesis by (simp add: score_of_error category_of_error)
  next
    case 3
    with assms(2) show ?thesis by simp
  qed
qed

lemma error_without_year_never_selected:
  assumes "\<forall>d\<in>set docs. has_error d \<longrightarrow> ref_year_int d = None"
    and "s \<in> set (selected_docs (process_company_urls docs))"
  shows "\<not> has_error s"
proof
  assume err: "has_error s"
  from assms(2) consider "fst (process_company_urls docs) = Some s"
    | "s \<in> set (snd (process_company_urls docs))"
    by (auto simp: selected_docs_def split: option.splits)
  then show False
  proof cases
    case 1
    then have "chosen_fin_rep docs = Some s" by (simp add: process_company_urls_def)
    from chosen_has_no_error [OF this] err show False by simp
  next
    case 2
    from selected_error_has_year [OF 2 err] have year: "ref_year_int s \<noteq> None" by simp
    from alternates_origin [OF 2] obtain d where "d \<in> set docs"
      and "s = demote (score_doc d) \<or> s = as_other (score_doc d)"
      by blast
    with err year assms(1) show False by auto
  qed
qed

section \<open>Facts about the classification loop\<close>

lemma calls_try_attempts: "calls (try_attempts llm n delay xs) \<le> length xs"
proof (induction xs)
  case Nil
  show ?case by simp
next
  case (Cons x xs)
  then show ?case by (simp add: Let_def split: llm_outcome.split)
qed

lemma calls_at_most_three: "calls (call_llm_for_analysis llm 3 2) \<le> 3"
  using calls_try_attempts [of llm 3 2 "[0..<3]"] by (simp add: call_llm_for_analysis_def)

lemma sleeps_try_attempts:
  "set (sleeps (try_attempts llm n delay xs)) \<subseteq> {delay}
   \<and> length (sleeps (try_attempts llm n delay xs)) \<le> length (filter (\<lambda>a. int a < int n - 1) xs)"
proof (induction xs)
  case Nil
  show ?case by simp
next
  case (Cons x xs)
  then show ?case by (auto simp: Let_def split: llm_outcome.split)
qed

lemma sleeps_fixed_delay:
  "set (sleeps (call_llm_for_analysis llm 3 2)) \<subseteq> {2}
   \<and> length (sleeps (call_llm_for_analysis llm 3 2)) \<le> 2"
proof -
  have "[0..<3] = [0, 1, 2::nat]" by (simp add: upt_rec)
  then have "length (filter (\<lambda>a. int a < int 3 - 1) [0..<3]) = 2" by simp
  with sleeps_try_attempts [of llm 3 2 "[0..<3]"] show ?thesis
    by (simp add: call_llm_for_analysis_def)
qed

lemma exhausted_gives_empty_dict:
  assumes "\<forall>i<3. llm i = Raises"
  shows "llm_result (call_llm_for_analysis llm 3 2) = JObj []"
proof -
  have "[0..<3] = [0, 1, 2::nat]" by (simp add: upt_rec)
  moreover from assms have "llm 0 = Raises" "llm 1 = Raises" "llm 2 = Raises" by simp_all
  ultimately show ?thesis by (simp add: call_llm_for_analysis_def)
qed

lemma unusable_result_is_error_doc:
  assumes "fst fetched \<noteq> Some ''Fetch Error''" and "fst fetched \<noteq> Some ''Processing Error''"
    and "\<not> truthy (llm_result (call_llm_for_analysis llm 3 2))"
  shows "analyze_url fetched llm u = Inr (error_doc u ''LLM analysis failed'')"
  using assms by (simp add: analyze_url_def)

lemma exhausted_is_error_doc:
  assumes "fst fetched \<noteq> Some ''Fetch Error''" and "fst fetched \<noteq> Some ''Processing Error''"
    and "\<forall>i<3. llm i = Raises"
  shows "analyze_url fetched llm u = Inr (error_doc u ''LLM analysis failed'')"
  using assms(1,2) by (rule unusable_result_is_error_doc) (simp add: exhausted_gives_empty_dict [OF assms(3)])

lemma error_key_of_answer_kept:
  "analyze_url (Some ''Report'', ''text'')
     (\<lambda>attempt. Returns (JObj [(''error'', JStr ''no access''), (''ref_year'', JInt 2023)])) ''u'' =
   Inr [(''url'', JStr ''u''), (''llm_ref_year_str'', JInt 2023),
        (''error'', JStr ''no access''), (''ref_year'', JInt 2023), (''ref_year_int'', JInt 2023)]"
proof -
  have "[0..<3] = [0, 1, 2::nat]" by (simp add: upt_rec)
  then show ?thesis
    by (simp add: analyze_url_def call_llm_for_analysis_def set_ref_year_def dict_get_def Let_def)
qed

section \<open>Facts about the order of the input\<close>









section \<open>Facts about the year signals\<close>











section \<open>Claims\<close>

text \<open>
  Claim C7. The weight follows the table (1.0 from 2023 on, then 0.8, 0.6, 0.4, 0.2 for
  2022 down to 2019), is 0 for every year below 2019 and for an unknown year, and never
  grows when the year gets smaller.
\<close>

theorem year_multiplier_table_and_monotone:
  "(\<forall>y1 y2. y2 \<le> y1 \<longrightarrow> get_year_multiplier (Some y2) \<le> get_year_multiplier (Some y1))
   \<and> (\<forall>y. 2023 \<le> y \<longrightarrow> get_year_multiplier (Some y) = 1)
   \<and> get_year_multiplier (Some 2022) = 8 / 10
   \<and> get_year_multiplier (Some 2021) = 6 / 10
   \<and> get_year_multiplier (Some 2020) = 4 / 10
   \<and> get_year_multiplier (Some 2019) = 2 / 10
   \<and> (\<forall>y. y < 2019 \<longrightarrow> get_year_multiplier (Some y) = 0)
   \<and> get_year_multiplier None = 0"
  by (auto simp: get_year_multiplier_def)

theorem year_multiplier_table_and_monotone_witness:
  "(2021::int) \<le> 2024
   \<and> get_year_multiplier (Some 2021) \<le> get_year_multiplier (Some 2024)
   \<and> (2023::int) \<le> 2030 \<and> get_year_multiplier (Some 2030) = 1
   \<and> (1999::int) < 2019 \<and> get_year_multiplier (Some 1999) = 0"
  using year_multiplier_table_and_monotone by simp



text \<open>
  Claim C3. No URL is selected twice for one company: the URLs of the chosen primary and
  of the alternates are pairwise different, and so are the non-empty SRC fields of the six
  rows written. At most five alternates are selected.
\<close>

theorem no_url_selected_twice:
  "distinct (map url (selected_docs (process_company_urls docs)))
   \<and> length (snd (process_company_urls docs)) \<le> 5
   \<and> distinct (filter (\<lambda>s. s \<noteq> [])
        (map csv_SRC (output_csv_rows company_id company_name (process_company_urls docs))))"
  by (simp add: selected_urls_distinct alternates_at_most_five nonempty_src_distinct)

theorem no_url_selected_twice_witness:
  "map url (selected_docs (process_company_urls
      [report_pdf ''a'' 2024, report_page ''a'' 2024, report_pdf ''b'' 2023, report_page ''b'' 2022])) =
     [''a'', ''b'']
   \<and> distinct (map url (selected_docs (process_company_urls
      [report_pdf ''a'' 2024, report_page ''a'' 2024, report_pdf ''b'' 2023, report_page ''b'' 2022])))"
  using no_url_selected_twice
    [of "[report_pdf ''a'' 2024, report_page ''a'' 2024, report_pdf ''b'' 2023, report_page ''b'' 2022]"]
  by (simp add: selection_eval)

text \<open>
  Claim C10. A chosen primary has a known reference year, and that year is 2019 or later,
  because its score, the recency weight of the year, is positive. So whenever the SRC of
  the FIN\_REP row is not empty, its REFYEAR is not empty either.
\<close>

theorem primary_year_known:
  "(\<forall>p. fst (process_company_urls docs) = Some p \<longrightarrow>
        (\<exists>y. ref_year_int p = Some y \<and> 2019 \<le> y
             \<and> calculated_score p = get_year_multiplier (Some y) \<and> 0 < calculated_score p))
   \<and> (csv_SRC (hd (company_rows company_id company_name urls docs)) \<noteq> [] \<longrightarrow>
        csv_REFYEAR (hd (company_rows company_id company_name urls docs)) \<noteq> [])"
proof (intro conjI allI impI)
  fix p
  assume "fst (process_company_urls docs) = Some p"
  then have c: "chosen_fin_rep docs = Some p"
    by (simp add: process_company_urls_def)
  from chosen_year_known [OF c] chosen_score [OF c]
  show "\<exists>y. ref_year_int p = Some y \<and> 2019 \<le> y
          \<and> calculated_score p = get_year_multiplier (Some y) \<and> 0 < calculated_score p"
    by auto
next
  let ?row = "hd (company_rows company_id company_name urls docs)"
  assume src: "csv_SRC ?row \<noteq> []"
  show "csv_REFYEAR ?row \<noteq> []"
  proof (cases "urls = []")
    case True
    with src show ?thesis
      by (simp add: company_rows_def empty_rows_def upt_6)
  next
    case False
    then have row: "?row = fin_rep_row company_id company_name (chosen_fin_rep docs)"
      by (simp add: company_rows_def output_csv_rows_def process_company_urls_def)
    show ?thesis
    proof (cases "chosen_fin_rep docs")
      case None
      with src row show ?thesis by (simp add: fin_rep_row_def)
    next
      case (Some p)
      from chosen_year_known [OF Some] obtain y where "ref_year_int p = Some y" by blast
      with Some row show ?thesis by (simp add: fin_rep_row_def py_str_int_not_Nil)
    qed
  qed
qed

theorem primary_year_known_witness:
  "fst (process_company_urls [report_pdf ''a'' 2021, report_pdf ''b'' 2010]) =
     Some ((score_doc (report_pdf ''a'' 2021))\<lparr>final_type_for_csv := Some ''FIN_REP''\<rparr>)
   \<and> ref_year_int ((score_doc (report_pdf ''a'' 2021))\<lparr>final_type_for_csv := Some ''FIN_REP''\<rparr>) = Some 2021
   \<and> csv_SRC (hd (company_rows ''7'' ''Acme'' [''a'', ''b''] [report_pdf ''a'' 2021, report_pdf ''b'' 2010])) = ''a''
   \<and> csv_REFYEAR (hd (company_rows ''7'' ''Acme'' [''a'', ''b''] [report_pdf ''a'' 2021, report_pdf ''b'' 2010])) \<noteq> []"
  using primary_year_known [of "[report_pdf ''a'' 2021, report_pdf ''b'' 2010]" "''7''" "''Acme''" "[''a'', ''b'']"]
  by (simp add: company_rows_def output_csv_rows_def fin_rep_row_def selection_eval)

text \<open>
  Claim C6. Every potential primary that is not chosen (its URL is not the chosen one's)
  enters the alternates pool demoted, with score 0.75 times the recency weight of its
  year, and every demoted entry among the alternates has that score. For a chosen
  primary, a demoted report and a report landing page of one year, the landing page
  (0.5 times the weight) scores strictly below the demoted report, which scores strictly
  below the primary (1.0 times the weight).
\<close>

theorem demoted_score_between:
  "(\<forall>f\<in>set (sorted_fin_reps docs). not_chosen_url (chosen_fin_rep docs) f \<longrightarrow>
        demote f \<in> set (all_potential_other_sources docs)
        \<and> calculated_score (demote f) = (75 / 100) * get_year_multiplier (ref_year_int f))
   \<and> (\<forall>a\<in>set (snd (process_company_urls docs)).
        selection_category a = ''DEMOTED_FIN_REP_AS_OTHER'' \<longrightarrow>
        calculated_score a = (75 / 100) * get_year_multiplier (ref_year_int a))
   \<and> (\<forall>p f l. fst (process_company_urls docs) = Some p
        \<and> f \<in> set (sorted_fin_reps docs) \<and> ref_year_int f = ref_year_int p
        \<and> is_landing_page l \<and> ref_year_int l = ref_year_int p \<longrightarrow>
        calculated_score (score_doc l) = (5 / 10) * get_year_multiplier (ref_year_int p)
        \<and> calculated_score (demote f) = (75 / 100) * get_year_multiplier (ref_year_int p)
        \<and> calculated_score p = 1 * get_year_multiplier (ref_year_int p)
        \<and> calculated_score (score_doc l) < calculated_score (demote f)
        \<and> calculated_score (demote f) < calculated_score p)"
proof (intro conjI ballI allI impI)
  fix f
  assume "f \<in> set (sorted_fin_reps docs)" and "not_chosen_url (chosen_fin_rep docs) f"
  then show "demote f \<in> set (all_potential_other_sources docs)"
    by (rule demoted_in_pool)
next
  fix f
  show "calculated_score (demote f) = (75 / 100) * get_year_multiplier (ref_year_int f)"
    by simp
next
  fix a
  assume a: "a \<in> set (snd (process_company_urls docs))"
    and cat: "selection_category a = ''DEMOTED_FIN_REP_AS_OTHER''"
  from alternates_origin [OF a] cat
  obtain d where "a = demote (score_doc d)"
    by (auto simp: category_score_doc_not_demoted)
  then show "calculated_score a = (75 / 100) * get_year_multiplier (ref_year_int a)"
    by simp
next
  fix p f l
  assume h: "fst (process_company_urls docs) = Some p
        \<and> f \<in> set (sorted_fin_reps docs) \<and> ref_year_int f = ref_year_int p
        \<and> is_landing_page l \<and> ref_year_int l = ref_year_int p"
  then have c: "chosen_fin_rep docs = Some p"
    by (simp add: process_company_urls_def)
  from chosen_score [OF c] have sp: "calculated_score p = 1 * get_year_multiplier (ref_year_int p)"
    and pos: "0 < get_year_multiplier (ref_year_int p)" by simp_all
  from h have sl: "calculated_score (score_doc l) = (5 / 10) * get_year_multiplier (ref_year_int p)"
    by (simp add: landing_page_score)
  from h have sf: "calculated_score (demote f) = (75 / 100) * get_year_multiplier (ref_year_int p)"
    by simp
  from sl show "calculated_score (score_doc l) = (5 / 10) * get_year_multiplier (ref_year_int p)" .
  from sf show "calculated_score (demote f) = (75 / 100) * get_year_multiplier (ref_year_int p)" .
  from sp show "calculated_score p = 1 * get_year_multiplier (ref_year_int p)" .
  from sl sf pos show "calculated_score (score_doc l) < calculated_score (demote f)" by simp
  from sp sf pos show "calculated_score (demote f) < calculated_score p" by simp
qed


theorem demoted_score_between_witness:
  "fst (process_company_urls
          [report_pdf ''a'' 2022, report_pdf ''b'' 2022, report_page ''c'' 2022]) =
     Some ((score_doc (report_pdf ''a'' 2022))\<lparr>final_type_for_csv := Some ''FIN_REP''\<rparr>)
   \<and> score_doc (report_pdf ''b'' 2022) \<in> set (sorted_fin_reps
          [report_pdf ''a'' 2022, report_pdf ''b'' 2022, report_page ''c'' 2022])
   \<and> is_landing_page (report_page ''c'' 2022)
   \<and> demote (score_doc (report_pdf ''b'' 2022)) \<in> set (all_potential_other_sources
          [report_pdf ''a'' 2022, report_pdf ''b'' 2022, report_page ''c'' 2022])
   \<and> calculated_score (score_doc (report_page ''c'' 2022)) = 4 / 10
   \<and> calculated_score (demote (score_doc (report_pdf ''b'' 2022))) = 6 / 10
   \<and> calculated_score ((score_doc (report_pdf ''a'' 2022))\<lparr>final_type_for_csv := Some ''FIN_REP''\<rparr>) = 8 / 10
   \<and> calculated_score (score_doc (report_page ''c'' 2022))
       < calculated_score (demote (score_doc (report_pdf ''b'' 2022)))
   \<and> calculated_score (demote (score_doc (report_pdf ''b'' 2022)))
       < calculated_score ((score_doc (report_pdf ''a'' 2022))\<lparr>final_type_for_csv := Some ''FIN_REP''\<rparr>)"
  using demoted_score_between
    [of "[report_pdf ''a'' 2022, report_pdf ''b'' 2022, report_page ''c'' 2022]"]
  by (simp add: is_landing_page_def selection_eval)


text \<open>
  Claim C2, as stated, at a concrete list: exactly one document is an annual report with
  a direct file link and year 2024, yet the primary is the other document, a direct
  report file of 2025, which the sort by score and then year puts first.
\<close>

theorem single_2024_report_not_primary:
  "filter (is_report_file_of_year 2024) [report_pdf ''a'' 2024, report_pdf ''b'' 2025] =
     [report_pdf ''a'' 2024]
   \<and> map_option url (fst (process_company_urls [report_pdf ''a'' 2024, report_pdf ''b'' 2025])) =
       Some ''b''
   \<and> map_option ref_year_int (fst (process_company_urls [report_pdf ''a'' 2024, report_pdf ''b'' 2025])) =
       Some (Some 2025)"
  by (simp add: is_report_file_of_year_def selection_eval)

text \<open>
  Claim C2, amended. The potential primaries are the documents without error that are
  annual reports with a direct file link and a known year, scored with the recency weight
  of the year. They are sorted by score and then year, both descending, entries with
  equal keys staying in input order. The first entry becomes the primary if and only if
  its score is positive; so a primary exists exactly when some potential primary has a
  positive score, and none is chosen when the best score is 0. If exactly one potential
  primary has year 2024 and none has a later year, that document is the primary and its
  score is 1.0.
\<close>

theorem primary_selection:
  "fst (process_company_urls docs) =
     (case sorted_fin_reps docs of
        [] \<Rightarrow> None
      | t # _ \<Rightarrow> if 0 < calculated_score t
                 then Some (t\<lparr>final_type_for_csv := Some ''FIN_REP''\<rparr>) else None)
   \<and> mset (sorted_fin_reps docs) = mset (map score_doc (filter qualifies_as_fin_rep docs))
   \<and> sorted_wrt (\<lambda>a b. fin_rep_key b \<le> fin_rep_key a) (sorted_fin_reps docs)
   \<and> (\<forall>d y. qualifies_as_fin_rep d \<and> ref_year_int d = Some y \<longrightarrow>
         fin_rep_key (score_doc d) = (get_year_multiplier (Some y), y))
   \<and> (\<forall>p. fst (process_company_urls docs) = Some p \<longrightarrow>
         (\<exists>t. p = t\<lparr>final_type_for_csv := Some ''FIN_REP''\<rparr>
              \<and> hd (filter (\<lambda>f. fin_rep_key f = fin_rep_key t) (potential_fin_reps docs)) = t))
   \<and> (fst (process_company_urls docs) \<noteq> None \<longleftrightarrow>
        (\<exists>f\<in>set (potential_fin_reps docs). 0 < calculated_score f))
   \<and> (\<forall>d. filter (\<lambda>e. qualifies_as_fin_rep e \<and> ref_year_int e = Some 2024) docs = [d]
           \<and> (\<forall>e\<in>set docs. qualifies_as_fin_rep e \<longrightarrow> (\<exists>z. ref_year_int e = Some z \<and> z \<le> 2024))
         \<longrightarrow> fst (process_company_urls docs) =
               Some ((score_doc d)\<lparr>final_type_for_csv := Some ''FIN_REP''\<rparr>)
             \<and> calculated_score ((score_doc d)\<lparr>final_type_for_csv := Some ''FIN_REP''\<rparr>) = 1)"
proof (intro conjI allI impI)
  show "fst (process_company_urls docs) =
     (case sorted_fin_reps docs of
        [] \<Rightarrow> None
      | t # _ \<Rightarrow> if 0 < calculated_score t
                 then Some (t\<lparr>final_type_for_csv := Some ''FIN_REP''\<rparr>) else None)"
    by (simp add: process_company_urls_def chosen_fin_rep_def)
  show "mset (sorted_fin_reps docs) = mset (map score_doc (filter qualifies_as_fin_rep docs))"
    by (simp add: sorted_fin_reps_def mset_sort_reverse potential_fin_reps_eq)
  show "sorted_wrt (\<lambda>a b. fin_rep_key b \<le> fin_rep_key a) (sorted_fin_reps docs)"
    unfolding sorted_fin_reps_def by (rule descending_sort_reverse)
  show "fin_rep_key (score_doc d) = (get_year_multiplier (Some y), y)"
    if "qualifies_as_fin_rep d \<and> ref_year_int d = Some y" for d y
    using that by (simp add: fin_rep_key_score_doc)
  show "\<exists>t. p = t\<lparr>final_type_for_csv := Some ''FIN_REP''\<rparr>
           \<and> hd (filter (\<lambda>f. fin_rep_key f = fin_rep_key t) (potential_fin_reps docs)) = t"
    if "fst (process_company_urls docs) = Some p" for p
    using that chosen_fin_rep_first [of docs p] by (simp add: process_company_urls_def)
  show "fst (process_company_urls docs) \<noteq> None \<longleftrightarrow>
        (\<exists>f\<in>set (potential_fin_reps docs). 0 < calculated_score f)"
    using chosen_fin_rep_None_iff [of docs]
    by (auto simp: process_company_urls_def not_le)
next
  fix d
  assume h: "filter (\<lambda>e. qualifies_as_fin_rep e \<and> ref_year_int e = Some 2024) docs = [d]
           \<and> (\<forall>e\<in>set docs. qualifies_as_fin_rep e \<longrightarrow> (\<exists>z. ref_year_int e = Some z \<and> z \<le> 2024))"
  then have one: "filter (\<lambda>e. qualifies_as_fin_rep e \<and> ref_year_int e = Some 2024) docs = [d]"
    and latest: "\<forall>e\<in>set docs. qualifies_as_fin_rep e \<longrightarrow> (\<exists>z. ref_year_int e = Some z \<and> z \<le> 2024)"
    by simp_all
  have recent: "(2023::int) \<le> 2024" by simp
  from only_report_of_latest_year_chosen(1) [OF one latest recent]
  show "fst (process_company_urls docs) =
          Some ((score_doc d)\<lparr>final_type_for_csv := Some ''FIN_REP''\<rparr>)"
    by (simp add: process_company_urls_def)
  from only_report_of_latest_year_chosen(2) [OF one latest recent]
  show "calculated_score ((score_doc d)\<lparr>final_type_for_csv := Some ''FIN_REP''\<rparr>) = 1"
    by simp
qed

theorem primary_selection_witness:
  "filter (\<lambda>e. qualifies_as_fin_rep e \<and> ref_year_int e = Some 2024)
     [report_pdf ''b'' 2023, report_pdf ''a'' 2024, report_page ''c'' 2024] = [report_pdf ''a'' 2024]
   \<and> map ref_year_int (filter qualifies_as_fin_rep
         [report_pdf ''b'' 2023, report_pdf ''a'' 2024, report_page ''c'' 2024]) = [Some 2023, Some 2024]
   \<and> fst (process_company_urls [report_pdf ''b'' 2023, report_pdf ''a'' 2024, report_page ''c'' 2024]) =
       Some ((score_doc (report_pdf ''a'' 2024))\<lparr>final_type_for_csv := Some ''FIN_REP''\<rparr>)
   \<and> calculated_score ((score_doc (report_pdf ''a'' 2024))\<lparr>final_type_for_csv := Some ''FIN_REP''\<rparr>) = 1"
proof -
  let ?docs = "[report_pdf ''b'' 2023, report_pdf ''a'' 2024, report_page ''c'' 2024]"
  have one: "filter (\<lambda>e. qualifies_as_fin_rep e \<and> ref_year_int e = Some 2024) ?docs =
               [report_pdf ''a'' 2024]"
    by (simp add: qualifies_as_fin_rep_def has_error_def is_direct_link_def
        report_pdf_def report_page_def mk_doc_def)
  have latest: "\<forall>e\<in>set ?docs. qualifies_as_fin_rep e \<longrightarrow> (\<exists>z. ref_year_int e = Some z \<and> z \<le> 2024)"
    by (simp add: qualifies_as_fin_rep_def has_error_def is_direct_link_def
        report_pdf_def report_page_def mk_doc_def)
  from primary_selection [of ?docs] one latest
  have "fst (process_company_urls ?docs) =
          Some ((score_doc (report_pdf ''a'' 2024))\<lparr>final_type_for_csv := Some ''FIN_REP''\<rparr>)
        \<and> calculated_score ((score_doc (report_pdf ''a'' 2024))\<lparr>final_type_for_csv := Some ''FIN_REP''\<rparr>) = 1"
    by blast
  moreover have "map ref_year_int (filter qualifies_as_fin_rep ?docs) = [Some 2023, Some 2024]"
    by (simp add: qualifies_as_fin_rep_def has_error_def is_direct_link_def
        report_pdf_def report_page_def mk_doc_def)
  ultimately show ?thesis using one by blast
qed


text \<open>
  Claim C5, at a failing input. The document has its error field set and a known
  reference year (the language model's answer carried an \<open>error\<close> key next to a year).
  It is scored 0 in category ERROR and is not the primary, but the loop of line 286
  keeps every pool entry with a known year, so it is written as an alternate.
\<close>

theorem error_doc_with_year_is_alternate:
  "has_error (mk_doc ''u'' (Some ''no access'') None (Some 2023) None)
   \<and> fst (process_company_urls [mk_doc ''u'' (Some ''no access'') None (Some 2023) None]) = None
   \<and> map url (snd (process_company_urls [mk_doc ''u'' (Some ''no access'') None (Some 2023) None])) = [''u'']
   \<and> map has_error (snd (process_company_urls [mk_doc ''u'' (Some ''no access'') None (Some 2023) None])) = [True]
   \<and> map selection_category (snd (process_company_urls [mk_doc ''u'' (Some ''no access'') None (Some 2023) None])) = [''ERROR'']
   \<and> map calculated_score (snd (process_company_urls [mk_doc ''u'' (Some ''no access'') None (Some 2023) None])) = [0]"
  by (simp add: selection_eval)

text \<open>
  Claim C9, at a failing input. The language model answers on the first attempt with a
  JSON object whose \<open>ref_year\<close> is \<open>null\<close>. \<open>int(None)\<close> raises TypeError, the handler of
  line 189 catches ValueError only, and the exception leaves the loop over the URLs: no
  document with an error field is recorded.
\<close>

theorem null_ref_year_raises:
  "analyze_url (Some ''Report'', ''text'')
     (\<lambda>attempt. Returns (JObj [(''content_type'', JStr ''OTHER''), (''ref_year'', JNull)])) ''u'' =
     Inl TypeError
   \<and> analyze_urls (\<lambda>u. (Some ''Report'', ''text''))
       (\<lambda>u attempt. Returns (JObj [(''content_type'', JStr ''OTHER''), (''ref_year'', JNull)])) [''u''] =
     Inl TypeError"
proof -
  have "[0..<3] = [0, 1, 2::nat]" by (simp add: upt_rec)
  then show ?thesis
    by (simp add: analyze_url_def call_llm_for_analysis_def set_ref_year_def dict_get_def Let_def)
qed









end
